theory Spec2Isabelle
  imports Complex_Main "HOL-Library.Word" "HOL-Library.Signed_Division"
begin

section \<open>Machine types of trackball.c\<close>

text \<open>
  \<^verbatim>\<open>int8_t\<close>, \<^verbatim>\<open>uint8_t\<close> and \<^verbatim>\<open>uint16_t\<close> are words; \<open>sint\<close> reads the signed ones.
  C promotes both operands of an arithmetic operator to \<^verbatim>\<open>int\<close> and converts the result
  back on assignment, keeping the low eight bits: \<open>int8_of_int\<close>.
\<close>

type_synonym int8_t = "8 word"

type_synonym uint8_t = "8 word"

type_synonym uint16_t = "16 word"

definition int8_of_int :: "int \<Rightarrow> int8_t" where
  "int8_of_int k = word_of_int k"

text \<open>What the conversion leaves of a sum of two 8-bit numbers, as a signed number.\<close>

definition wrap8 :: "int \<Rightarrow> int" where
  "wrap8 k = (if 127 < k then k - 256 else if k < - 128 then k + 256 else k)"

text \<open>\<^verbatim>\<open>enum { AXIS_X = 0, AXIS_Y, AXIS_NUM }\<close> and \<^verbatim>\<open>enum { MODE_WHEEL, MODE_MOUSE }\<close>.
  The arrays of \<^verbatim>\<open>AXIS_NUM\<close> elements are functions on \<open>axis\<close>.\<close>

datatype axis = AXIS_X | AXIS_Y

datatype mode = MODE_WHEEL | MODE_MOUSE

definition TB_DECR :: int8_t where
  "TB_DECR = int8_of_int (- 1)"

definition TB_INCR :: int8_t where
  "TB_INCR = int8_of_int 1"

definition WHEEL_DENOM :: int8_t where
  "WHEEL_DENOM = 2"

section \<open>Single-precision arithmetic\<close>

text \<open>
  A \<^verbatim>\<open>float\<close> is modelled by the real number it denotes. Every basic operation of IEEE 754
  binary32 returns the exact result rounded to 24 significant bits, to nearest, ties to
  even: \<open>float_round\<close>. The model covers the normal range only: it has no infinities, no
  NaN and no gradual underflow.
\<close>

type_synonym float = real

definition round_half_even :: "real \<Rightarrow> int" where
  "round_half_even x =
     (let f = \<lfloor>x\<rfloor>; d = x - of_int f
      in if d < 1 / 2 then f
         else if 1 / 2 < d then f + 1
         else if even f then f else f + 1)"

definition float_ulp :: "real \<Rightarrow> real" where
  "float_ulp x = 2 powr (of_int \<lfloor>log 2 \<bar>x\<bar>\<rfloor> - 23)"

definition float_round :: "real \<Rightarrow> float" where
  "float_round x =
     (if x = 0 then 0 else of_int (round_half_even (x / float_ulp x)) * float_ulp x)"

definition fadd :: "float \<Rightarrow> float \<Rightarrow> float" where
  "fadd a b = float_round (a + b)"

definition fsub :: "float \<Rightarrow> float \<Rightarrow> float" where
  "fsub a b = float_round (a - b)"

definition fmul :: "float \<Rightarrow> float \<Rightarrow> float" where
  "fmul a b = float_round (a * b)"

definition fdiv :: "float \<Rightarrow> float \<Rightarrow> float" where
  "fdiv a b = float_round (a / b)"

text \<open>The literals \<^verbatim>\<open>0.05f\<close> and \<^verbatim>\<open>0.1f\<close> are the binary32 numbers nearest to 0.05 and 0.1.\<close>

definition lit_0_05f :: float where
  "lit_0_05f = 13421773 / 2 ^ 28"

definition lit_0_1f :: float where
  "lit_0_1f = 13421773 / 2 ^ 27"

text \<open>The binary32 number that follows \<^verbatim>\<open>0.05f\<close>.\<close>

definition next_0_05f :: float where
  "next_0_05f = 13421774 / 2 ^ 28"

text \<open>\<^verbatim>\<open>powf\<close> and \<^verbatim>\<open>sqrtf\<close> come from the C library, which is not part of the sources:
  they are parameters of the model.\<close>

record libm =
  powf :: "float \<Rightarrow> float \<Rightarrow> float"
  sqrtf :: "float \<Rightarrow> float"

text \<open>The library whose functions are correctly rounded.\<close>

definition libm_cr :: libm where
  "libm_cr = \<lparr> powf = (\<lambda>a b. float_round (a powr b)), sqrtf = (\<lambda>a. float_round (sqrt a)) \<rparr>"

text \<open>What the monotonicity of the curve needs from \<^verbatim>\<open>powf\<close>: at the exponent 1.5 and on
  non-negative arguments it is non-negative and non-decreasing.\<close>

definition powf_monotone :: "libm \<Rightarrow> bool" where
  "powf_monotone M \<longleftrightarrow>
     (\<forall>x y. 0 \<le> x \<and> x \<le> y \<longrightarrow> 0 \<le> powf M x (3 / 2) \<and> powf M x (3 / 2) \<le> powf M y (3 / 2))"

section \<open>The acceleration curve\<close>

text \<open>\<^verbatim>\<open>rateToVelocityCurve\<close>, lines 31 to 41. The sum in the \<^verbatim>\<open>return\<close> is evaluated
  left to right.\<close>

definition rateToVelocityCurve :: "libm \<Rightarrow> float \<Rightarrow> float" where
  "rateToVelocityCurve M input =
     (let abs_input = \<bar>input\<bar>
      in if abs_input < lit_0_05f then 0
         else
           let x = fsub abs_input lit_0_05f;
               accel = fdiv (powf M x (3 / 2)) 40;
               linear = fdiv x 20
           in fadd (fadd lit_0_1f linear) accel)"

section \<open>The collaborators\<close>

text \<open>
  The rate meter (\<^verbatim>\<open>rate_meter.h\<close>) and the glider (\<^verbatim>\<open>glider.h\<close>) are not part of the
  sources. Their state types are the type variables \<open>'r\<close> and \<open>'g\<close>, and their functions
  are the fields of a record that every operation of the trackball takes as a parameter.
  A function that takes a pointer and changes the structure returns the new structure;
  \<^verbatim>\<open>glider_glide\<close> does so and returns a value too.
\<close>

record ('r, 'g) collab =
  rate_meter_interrupt :: "'r \<Rightarrow> 'r"
  rate_meter_tick :: "'r \<Rightarrow> uint16_t \<Rightarrow> 'r"
  rate_meter_expire :: "'r \<Rightarrow> 'r"
  rate_meter_rate :: "'r \<Rightarrow> float"
  rate_meter_delta :: "'r \<Rightarrow> float"
  glider_set_direction :: "'g \<Rightarrow> int8_t \<Rightarrow> 'g"
  glider_update :: "'g \<Rightarrow> float \<Rightarrow> float \<Rightarrow> 'g"
  glider_update_speed :: "'g \<Rightarrow> float \<Rightarrow> 'g"
  glider_glide :: "'g \<Rightarrow> uint8_t \<Rightarrow> int8_t \<times> 'g"
  glider_stop :: "'g \<Rightarrow> 'g"

section \<open>The state of the driver\<close>

text \<open>The file-scope variables of trackball.c, lines 19 to 28.\<close>

record ('r, 'g) trackball =
  last_mode :: mode
  last_report :: uint16_t
  select_button_pressed :: bool
  distances :: "axis \<Rightarrow> int8_t"
  rate_meters :: "axis \<Rightarrow> 'r"
  gliders :: "axis \<Rightarrow> 'g"
  wheel_buffer :: "axis \<Rightarrow> int8_t"

text \<open>The initial values; \<open>r0\<close> and \<open>g0\<close> are the zero-initialised structures.\<close>

definition initial :: "'r \<Rightarrow> 'g \<Rightarrow> ('r, 'g) trackball" where
  "initial r0 g0 =
     \<lparr> last_mode = MODE_MOUSE, last_report = 0, select_button_pressed = False,
       distances = (\<lambda>_. 0), rate_meters = (\<lambda>_. r0), gliders = (\<lambda>_. g0),
       wheel_buffer = (\<lambda>_. 0) \<rparr>"

section \<open>Pulse ingestion\<close>

text \<open>
  A division whose divisor is not a literal is checked: dividing by zero is the fault
  of the model, so that the guard of line 56 is a branch of it.
\<close>

datatype fault = Division_by_zero

definition checked_fdiv :: "float \<Rightarrow> float \<Rightarrow> fault + float" where
  "checked_fdiv a b = (if b = 0 then Inl Division_by_zero else Inr (fdiv a b))"

text \<open>Line 55: the combined rate of both axes.\<close>

definition combined_rate :: "libm \<Rightarrow> float \<Rightarrow> float \<Rightarrow> float" where
  "combined_rate M rx ry = sqrtf M (fadd (fmul rx rx) (fmul ry ry))"

text \<open>Lines 55 to 59 of \<^verbatim>\<open>trackball_move\<close>: from the two rates to the two velocities.\<close>

definition axis_velocities :: "libm \<Rightarrow> float \<Rightarrow> float \<Rightarrow> fault + float \<times> float" where
  "axis_velocities M rx ry =
     (let rate = combined_rate M rx ry
      in case (if 0 < rate then checked_fdiv (rateToVelocityCurve M rate) rate else Inr 0) of
           Inl e \<Rightarrow> Inl e
         | Inr ratio \<Rightarrow> Inr (fmul rx ratio, fmul ry ratio))"

text \<open>\<^verbatim>\<open>trackball_move\<close>, lines 43 to 69.\<close>

definition trackball_move ::
  "('r, 'g) collab \<Rightarrow> libm \<Rightarrow> axis \<Rightarrow> int8_t \<Rightarrow> ('r, 'g) trackball \<Rightarrow> fault + ('r, 'g) trackball" where
  "trackball_move C M a direction s =
     (let s1 = s\<lparr>distances := (distances s)(a := int8_of_int (sint (distances s a) + sint direction))\<rparr>
      in if last_mode s1 \<noteq> MODE_WHEEL then
           let s2 = s1\<lparr>rate_meters := (rate_meters s1)(a := rate_meter_interrupt C (rate_meters s1 a))\<rparr>;
               s3 = s2\<lparr>gliders := (gliders s2)(a := glider_set_direction C (gliders s2 a) direction)\<rparr>;
               rx = rate_meter_rate C (rate_meters s3 AXIS_X);
               ry = rate_meter_rate C (rate_meters s3 AXIS_Y)
           in case axis_velocities M rx ry of
                Inl e \<Rightarrow> Inl e
              | Inr (vx, vy) \<Rightarrow>
                  Inr (if a = AXIS_X then
                         s3\<lparr>gliders := (gliders s3)
                               (AXIS_X := glider_update C (gliders s3 AXIS_X) vx
                                            (sqrtf M (rate_meter_delta C (rate_meters s3 AXIS_X))),
                                AXIS_Y := glider_update_speed C (gliders s3 AXIS_Y) vy)\<rparr>
                       else
                         s3\<lparr>gliders := (gliders s3)
                               (AXIS_X := glider_update_speed C (gliders s3 AXIS_X) vx,
                                AXIS_Y := glider_update C (gliders s3 AXIS_Y) vy
                                            (sqrtf M (rate_meter_delta C (rate_meters s3 AXIS_Y))))\<rparr>)
         else Inr s1)"

text \<open>The four interrupt handlers, lines 71 to 74.\<close>

definition trackball_left ::
  "('r, 'g) collab \<Rightarrow> libm \<Rightarrow> ('r, 'g) trackball \<Rightarrow> fault + ('r, 'g) trackball" where
  "trackball_left C M = trackball_move C M AXIS_X TB_DECR"

definition trackball_right ::
  "('r, 'g) collab \<Rightarrow> libm \<Rightarrow> ('r, 'g) trackball \<Rightarrow> fault + ('r, 'g) trackball" where
  "trackball_right C M = trackball_move C M AXIS_X TB_INCR"

definition trackball_up ::
  "('r, 'g) collab \<Rightarrow> libm \<Rightarrow> ('r, 'g) trackball \<Rightarrow> fault + ('r, 'g) trackball" where
  "trackball_up C M = trackball_move C M AXIS_Y TB_DECR"

definition trackball_down ::
  "('r, 'g) collab \<Rightarrow> libm \<Rightarrow> ('r, 'g) trackball \<Rightarrow> fault + ('r, 'g) trackball" where
  "trackball_down C M = trackball_move C M AXIS_Y TB_INCR"

section \<open>The report\<close>

text \<open>The fields of \<^verbatim>\<open>report_mouse_t\<close> that the driver reads or writes; \<open>report_buttons\<close>
  stands for the ones it passes through.\<close>

record report_mouse_t =
  report_buttons :: uint8_t
  report_x :: int8_t
  report_y :: int8_t
  report_h :: int8_t
  report_v :: int8_t

text \<open>Modelled from the spec: the macro \<^verbatim>\<open>TIMER_DIFF_16\<close> of the timer header is not part of
  the sources. Section 5 of the specification: the elapsed time is a wraparound-safe
  unsigned subtraction over the timer's fixed bit width.\<close>

definition TIMER_DIFF_16 :: "uint16_t \<Rightarrow> uint16_t \<Rightarrow> uint16_t" where
  "TIMER_DIFF_16 a b = a - b"

text \<open>Line 102: the mode that the button flag selects.\<close>

definition selected_mode :: "('r, 'g) trackball \<Rightarrow> mode" where
  "selected_mode s = (if select_button_pressed s then MODE_WHEEL else MODE_MOUSE)"

text \<open>Lines 103 to 115: the reset on a mode change, the tick of the rate meters otherwise.\<close>

definition reset_or_tick ::
  "('r, 'g) collab \<Rightarrow> mode \<Rightarrow> uint16_t \<Rightarrow> ('r, 'g) trackball \<Rightarrow> ('r, 'g) trackball" where
  "reset_or_tick C m delta s =
     (if last_mode s \<noteq> m then
        s\<lparr>rate_meters := (rate_meters s)
             (AXIS_X := rate_meter_expire C (rate_meters s AXIS_X),
              AXIS_Y := rate_meter_expire C (rate_meters s AXIS_Y)),
          gliders := (gliders s)
             (AXIS_X := glider_stop C (gliders s AXIS_X),
              AXIS_Y := glider_stop C (gliders s AXIS_Y)),
          wheel_buffer := (wheel_buffer s)(AXIS_X := 0, AXIS_Y := 0),
          distances := (distances s)(AXIS_X := 0, AXIS_Y := 0)\<rparr>
      else
        s\<lparr>rate_meters := (rate_meters s)
             (AXIS_X := rate_meter_tick C (rate_meters s AXIS_X) delta,
              AXIS_Y := rate_meter_tick C (rate_meters s AXIS_Y) delta)\<rparr>)"

text \<open>
  The critical section of \<^verbatim>\<open>pointing_device_driver_get_report\<close>, lines 95 to 143,
  with the value of \<^verbatim>\<open>timer_read()\<close> as the argument \<open>now\<close>. It returns the local
  variables \<open>(x, y, h, v)\<close> and the new state.
\<close>

definition report_section ::
  "('r, 'g) collab \<Rightarrow> uint16_t \<Rightarrow> ('r, 'g) trackball
     \<Rightarrow> (int8_t \<times> int8_t \<times> int8_t \<times> int8_t) \<times> ('r, 'g) trackball" where
  "report_section C now s =
     (let delta = TIMER_DIFF_16 now (last_report s);
          s1 = s\<lparr>last_report := now\<rparr>;
          m = selected_mode s1;
          s2 = reset_or_tick C m delta s1;
          s3 = s2\<lparr>last_mode := m\<rparr>
      in case m of
           MODE_MOUSE \<Rightarrow>
             (let (x, gx) = glider_glide C (gliders s3 AXIS_X) (ucast delta);
                  s4 = s3\<lparr>gliders := (gliders s3)(AXIS_X := gx)\<rparr>;
                  (y, gy) = glider_glide C (gliders s4 AXIS_Y) (ucast delta);
                  s5 = s4\<lparr>gliders := (gliders s4)(AXIS_Y := gy)\<rparr>
              in ((x, y, 0, 0), s5\<lparr>distances := (distances s5)(AXIS_X := 0, AXIS_Y := 0)\<rparr>))
         | MODE_WHEEL \<Rightarrow>
             (let wb = (wheel_buffer s3)
                    (AXIS_X := int8_of_int (sint (wheel_buffer s3 AXIS_X) + sint (distances s3 AXIS_X)),
                     AXIS_Y := int8_of_int (sint (wheel_buffer s3 AXIS_Y) + sint (distances s3 AXIS_Y)));
                  h = int8_of_int (sint (wb AXIS_X) sdiv sint WHEEL_DENOM);
                  v = int8_of_int (sint (wb AXIS_Y) sdiv sint WHEEL_DENOM);
                  wb' = wb
                    (AXIS_X := int8_of_int (sint (wb AXIS_X) - sint h * sint WHEEL_DENOM),
                     AXIS_Y := int8_of_int (sint (wb AXIS_Y) - sint v * sint WHEEL_DENOM))
              in ((0, 0, h, v),
                  s3\<lparr>wheel_buffer := wb', distances := (distances s3)(AXIS_X := 0, AXIS_Y := 0)\<rparr>)))"

text \<open>\<^verbatim>\<open>pointing_device_driver_get_report\<close>, lines 94 to 150.\<close>

definition pointing_device_driver_get_report ::
  "('r, 'g) collab \<Rightarrow> uint16_t \<Rightarrow> report_mouse_t \<Rightarrow> ('r, 'g) trackball
     \<Rightarrow> report_mouse_t \<times> ('r, 'g) trackball" where
  "pointing_device_driver_get_report C now mouse_report s =
     (let ((x, y, h, v), s') = report_section C now s
      in (mouse_report\<lparr>report_x := x, report_y := y, report_h := h,
                       report_v := int8_of_int (- sint v)\<rparr>, s'))"

section \<open>Sequences of events\<close>

text \<open>
  The driver is driven by the four interrupts, by the keymap writing the button flag, and
  by the host asking for a report (with the value of the timer and the report to fill).
\<close>

datatype event =
    Left | Right | Up | Down
  | Select bool
  | Report uint16_t report_mouse_t

fun step ::
  "('r, 'g) collab \<Rightarrow> libm \<Rightarrow> event \<Rightarrow> ('r, 'g) trackball \<Rightarrow> fault + ('r, 'g) trackball" where
  "step C M Left s = trackball_left C M s"
| "step C M Right s = trackball_right C M s"
| "step C M Up s = trackball_up C M s"
| "step C M Down s = trackball_down C M s"
| "step C M (Select b) s = Inr (s\<lparr>select_button_pressed := b\<rparr>)"
| "step C M (Report now mouse_report) s =
     Inr (snd (pointing_device_driver_get_report C now mouse_report s))"

fun run ::
  "('r, 'g) collab \<Rightarrow> libm \<Rightarrow> event list \<Rightarrow> ('r, 'g) trackball \<Rightarrow> fault + ('r, 'g) trackball" where
  "run C M [] s = Inr s"
| "run C M (e # es) s = (case step C M e s of Inl f \<Rightarrow> Inl f | Inr s' \<Rightarrow> run C M es s')"

section \<open>The contract of the glider\<close>

text \<open>A glider is stopped when it is in a state that \<^verbatim>\<open>glider_stop\<close> leaves.\<close>

definition glider_stopped :: "('r, 'g) collab \<Rightarrow> 'g \<Rightarrow> bool" where
  "glider_stopped C g \<longleftrightarrow> (\<exists>g0. g = glider_stop C g0)"

text \<open>Modelled from the spec: glider.c is not part of the sources. Section 4.4 of the
  specification: \<^verbatim>\<open>stop\<close> immediately zeroes momentum, and \<^verbatim>\<open>glide\<close> advances momentum by
  the elapsed time and returns the quantized output delta for this tick; section 8: a
  stopped glide stays stopped. So sampling a stopped glider returns 0 and leaves a
  stopped glider.\<close>

definition stopped_glider_stays_stopped :: "('r, 'g) collab \<Rightarrow> bool" where
  "stopped_glider_stays_stopped C \<longleftrightarrow>
     (\<forall>g d. glider_stopped C g \<longrightarrow>
        fst (glider_glide C g d) = 0 \<and> glider_stopped C (snd (glider_glide C g d)))"

text \<open>Modelled from the spec: a small rate meter and glider with the interface of
  section 4.4, to run the driver on concrete inputs. The rate meter counts pulses and
  halves its count at each tick; the glider moves by its speed times the elapsed time
  in its direction, and keeps the list of the elapsed times it was sampled with.\<close>

record sim_glider =
  sim_direction :: int8_t
  sim_speed :: float
  sim_samples :: "nat list"

definition sim_collab :: "(float, sim_glider) collab" where
  "sim_collab =
     \<lparr> rate_meter_interrupt = (\<lambda>r. r + 1),
       rate_meter_tick = (\<lambda>r d. r / 2),
       rate_meter_expire = (\<lambda>r. 0),
       rate_meter_rate = (\<lambda>r. r),
       rate_meter_delta = (\<lambda>r. 1),
       glider_set_direction = (\<lambda>g d. g\<lparr>sim_direction := d\<rparr>),
       glider_update = (\<lambda>g v j. g\<lparr>sim_speed := v\<rparr>),
       glider_update_speed = (\<lambda>g v. g\<lparr>sim_speed := v\<rparr>),
       glider_glide = (\<lambda>g d.
          (int8_of_int (sint (sim_direction g) * \<lfloor>sim_speed g * real (unat d)\<rfloor>),
           g\<lparr>sim_samples := unat d # sim_samples g\<rparr>)),
       glider_stop = (\<lambda>g. g\<lparr>sim_speed := 0\<rparr>) \<rparr>"

definition sim_glider0 :: sim_glider where
  "sim_glider0 = \<lparr> sim_direction = 0, sim_speed = 0, sim_samples = [] \<rparr>"

definition report0 :: report_mouse_t where
  "report0 = \<lparr> report_buttons = 0, report_x = 0, report_y = 0, report_h = 0, report_v = 0 \<rparr>"

text \<open>Two states of the driver over these collaborators: one with motion pending in
  every accumulator while the button has just been released, one scrolling.\<close>

definition sim_moving :: "(float, sim_glider) trackball" where
  "sim_moving =
     \<lparr> last_mode = MODE_WHEEL, last_report = 100, select_button_pressed = False,
       distances = (\<lambda>_. 3), rate_meters = (\<lambda>_. 4),
       gliders = (\<lambda>_. \<lparr> sim_direction = 1, sim_speed = 2, sim_samples = [] \<rparr>),
       wheel_buffer = (\<lambda>_. 1) \<rparr>"

definition sim_scrolling :: "(float, sim_glider) trackball" where
  "sim_scrolling =
     \<lparr> last_mode = MODE_WHEEL, last_report = 0, select_button_pressed = True,
       distances = (\<lambda>_. 0)(AXIS_X := 5, AXIS_Y := 2), rate_meters = (\<lambda>_. 0),
       gliders = (\<lambda>_. sim_glider0),
       wheel_buffer = (\<lambda>_. 0) \<rparr>"

text \<open>A third state: gliding in MOUSE mode, the last report just before the timer
  wraps around.\<close>

definition sim_gliding :: "(float, sim_glider) trackball" where
  "sim_gliding =
     \<lparr> last_mode = MODE_MOUSE, last_report = 65530, select_button_pressed = False,
       distances = (\<lambda>_. 0), rate_meters = (\<lambda>_. 1),
       gliders = (\<lambda>_. \<lparr> sim_direction = 1, sim_speed = 2, sim_samples = [] \<rparr>),
       wheel_buffer = (\<lambda>_. 0) \<rparr>"

text \<open>A fourth state: scrolling, with the raw distance of the x axis at the largest
  8-bit value.\<close>

definition sim_full :: "(float, sim_glider) trackball" where
  "sim_full =
     \<lparr> last_mode = MODE_WHEEL, last_report = 0, select_button_pressed = True,
       distances = (\<lambda>_. 0)(AXIS_X := 127), rate_meters = (\<lambda>_. 0),
       gliders = (\<lambda>_. sim_glider0),
       wheel_buffer = (\<lambda>_. 0) \<rparr>"

section \<open>The bound on the wheel buffer\<close>

definition wheel_bounded :: "('r, 'g) trackball \<Rightarrow> bool" where
  "wheel_bounded s \<longleftrightarrow>
     \<bar>sint (wheel_buffer s AXIS_X)\<bar> < sint WHEEL_DENOM \<and>
     \<bar>sint (wheel_buffer s AXIS_Y)\<bar> < sint WHEEL_DENOM"

section \<open>Rounding to single precision\<close>

lemma round_half_even_int: "round_half_even (of_int n) = n"
  by (simp add: round_half_even_def)

lemma round_half_even_near:
  assumes "\<bar>x - of_int n\<bar> < 1 / 2"
  shows "round_half_even x = n"
proof (cases "of_int n \<le> x")
  case True
  then have "\<lfloor>x\<rfloor> = n" using assms by linarith
  then show ?thesis using assms True by (simp add: round_half_even_def Let_def)
next
  case False
  then have f: "\<lfloor>x\<rfloor> = n - 1" using assms by linarith
  have "1 / 2 < x - of_int (n - 1)" using assms False by simp
  then show ?thesis using f by (simp add: round_half_even_def Let_def)
qed

lemma round_half_even_range: "\<lfloor>x\<rfloor> \<le> round_half_even x \<and> round_half_even x \<le> \<lfloor>x\<rfloor> + 1"
  by (simp add: round_half_even_def Let_def)

lemma round_half_even_mono:
  assumes "x \<le> y"
  shows "round_half_even x \<le> round_half_even y"
proof (cases "\<lfloor>x\<rfloor> = \<lfloor>y\<rfloor>")
  case True
  then have "x - of_int \<lfloor>x\<rfloor> \<le> y - of_int \<lfloor>y\<rfloor>" using assms by simp
  then show ?thesis using True
    by (auto simp: round_half_even_def Let_def)
next
  case False
  then have "\<lfloor>x\<rfloor> + 1 \<le> \<lfloor>y\<rfloor>" using floor_mono [OF assms] by linarith
  then show ?thesis
    using round_half_even_range [of x] round_half_even_range [of y] by linarith
qed

lemma float_round_0: "float_round 0 = 0"
  by (simp add: float_round_def)

lemma float_ulp_eq:
  assumes "2 powr (of_int e) \<le> \<bar>x\<bar>" "\<bar>x\<bar> < 2 powr (of_int e + 1)"
  shows "float_ulp x = 2 powr (of_int e - 23)"
proof -
  have "0 < \<bar>x\<bar>"
    using assms(1) powr_gt_zero [of 2 "of_int e"] by linarith
  then have "\<lfloor>log 2 \<bar>x\<bar>\<rfloor> = e"
    using assms by (simp add: floor_log_eq_powr_iff)
  then show ?thesis by (simp add: float_ulp_def)
qed

lemma float_round_near:
  assumes "2 powr (of_int e) \<le> \<bar>x\<bar>" "\<bar>x\<bar> < 2 powr (of_int e + 1)"
    and "\<bar>x / 2 powr (of_int e - 23) - of_int n\<bar> < 1 / 2"
  shows "float_round x = of_int n * 2 powr (of_int e - 23)"
proof -
  have "x \<noteq> 0"
    using assms(1) powr_gt_zero [of 2 "of_int e"] by auto
  then show ?thesis
    using float_ulp_eq [OF assms(1,2)] round_half_even_near [OF assms(3)]
    by (simp add: float_round_def)
qed

lemma binade:
  assumes "0 < x"
  shows "2 powr (of_int \<lfloor>log 2 x\<rfloor>) \<le> x \<and> x < 2 powr (of_int \<lfloor>log 2 x\<rfloor> + 1)"
  using floor_log_eq_powr_iff [of x 2 "\<lfloor>log 2 x\<rfloor>"] assms by simp

lemma float_round_binade:
  assumes "0 < x"
  shows "2 powr (of_int \<lfloor>log 2 x\<rfloor>) \<le> float_round x \<and>
         float_round x \<le> 2 powr (of_int \<lfloor>log 2 x\<rfloor> + 1)"
proof -
  define e where "e = \<lfloor>log 2 x\<rfloor>"
  define u :: real where "u = 2 powr (of_int e - 23)"
  have u: "0 < u" by (simp add: u_def)
  have lo: "2 powr (of_int e) = 2 ^ 23 * u" and hi: "2 powr (of_int e + 1) = 2 ^ 24 * u"
    by (simp_all add: u_def powr_diff powr_add)
  have b: "2 ^ 23 * u \<le> x" "x < 2 ^ 24 * u"
    using binade [OF assms] lo hi by (simp_all add: e_def)
  have "of_int (2 ^ 23) \<le> x / u" "x / u \<le> of_int (2 ^ 24)"
    using b u by (simp_all add: pos_le_divide_eq pos_divide_le_eq)
  then have "round_half_even (of_int (2 ^ 23)) \<le> round_half_even (x / u)"
    "round_half_even (x / u) \<le> round_half_even (of_int (2 ^ 24))"
    by (simp_all add: round_half_even_mono)
  then have r: "2 ^ 23 \<le> round_half_even (x / u)" "round_half_even (x / u) \<le> 2 ^ 24"
    by (simp_all only: round_half_even_int)
  have fr: "float_round x = of_int (round_half_even (x / u)) * u"
    using assms by (simp add: float_round_def float_ulp_def u_def e_def)
  have "2 ^ 23 * u \<le> of_int (round_half_even (x / u)) * u"
    using r(1) u by (intro mult_right_mono) (simp_all add: of_int_le_iff [symmetric] del: of_int_le_iff)
  moreover have "of_int (round_half_even (x / u)) * u \<le> 2 ^ 24 * u"
    using r(2) u by (intro mult_right_mono) (simp_all add: of_int_le_iff [symmetric] del: of_int_le_iff)
  ultimately show ?thesis
    using lo hi fr by (simp add: e_def)
qed

lemma float_round_nonneg: "0 \<le> x \<Longrightarrow> 0 \<le> float_round x"
proof (cases "x = 0")
  case True
  then show ?thesis by (simp add: float_round_0)
next
  case False
  assume "0 \<le> x"
  with False have "0 < x" by simp
  from float_round_binade [OF this] powr_gt_zero [of 2 "of_int \<lfloor>log 2 x\<rfloor>"]
  show ?thesis by linarith
qed

lemma float_round_mono:
  assumes "0 \<le> x" "x \<le> y"
  shows "float_round x \<le> float_round y"
proof (cases "x = 0")
  case True
  then show ?thesis using float_round_nonneg [of y] assms by (simp add: float_round_0)
next
  case False
  with assms have x: "0 < x" and y: "0 < y" by simp_all
  have le: "\<lfloor>log 2 x\<rfloor> \<le> \<lfloor>log 2 y\<rfloor>"
    using x y assms(2) by (intro floor_mono) simp
  show ?thesis
  proof (cases "\<lfloor>log 2 x\<rfloor> = \<lfloor>log 2 y\<rfloor>")
    case True
    define u :: real where "u = 2 powr (of_int \<lfloor>log 2 y\<rfloor> - 23)"
    have u: "0 < u" by (simp add: u_def)
    have "x / u \<le> y / u" using assms(2) u by (simp add: divide_right_mono)
    then have "round_half_even (x / u) \<le> round_half_even (y / u)"
      by (rule round_half_even_mono)
    then have "of_int (round_half_even (x / u)) * u \<le> of_int (round_half_even (y / u)) * u"
      using u by (intro mult_right_mono) simp_all
    then show ?thesis
      using x y True by (simp add: float_round_def float_ulp_def u_def)
  next
    case False
    with le have "of_int \<lfloor>log 2 x\<rfloor> + 1 \<le> (of_int \<lfloor>log 2 y\<rfloor> :: real)" by linarith
    then have "2 powr (of_int \<lfloor>log 2 x\<rfloor> + 1) \<le> (2::real) powr (of_int \<lfloor>log 2 y\<rfloor>)"
      by (intro powr_mono) simp_all
    then show ?thesis
      using float_round_binade [OF x] float_round_binade [OF y] by linarith
  qed
qed

lemma fmul_0_right: "fmul a 0 = 0"
  by (simp add: fmul_def float_round_0)

section \<open>Properties of the acceleration curve\<close>

text \<open>
  Claim C3 (dead zone). For every input \<open>r\<close> with \<open>\<bar>r\<bar> < 0.05\<close> the curve returns exactly 0.
  The code compares with the literal \<^verbatim>\<open>0.05f\<close>, which lies just above 0.05, so every
  such input takes the early return; this holds whatever \<^verbatim>\<open>powf\<close> does.
\<close>

theorem C3_dead_zone:
  "\<bar>r\<bar> < 5 / 100 \<Longrightarrow> rateToVelocityCurve M r = 0"
  by (simp add: rateToVelocityCurve_def lit_0_05f_def)

theorem C3_dead_zone_witness:
  "\<bar>1 / 100 :: real\<bar> < 5 / 100 \<and> rateToVelocityCurve libm_cr (1 / 100) = 0"
  using C3_dead_zone [of "1 / 100" libm_cr] by simp

lemma float_round_lit_0_1f: "float_round lit_0_1f = lit_0_1f"
  using float_round_near [of "-4" lit_0_1f 13421773]
  by (simp add: lit_0_1f_def powr_neg_numeral)

lemma step_x: "float_round (next_0_05f - lit_0_05f) = 1 / 2 ^ 28"
  using float_round_near [of "-28" "next_0_05f - lit_0_05f" "2 ^ 23"]
  by (simp add: next_0_05f_def lit_0_05f_def powr_neg_numeral)

lemma step_linear: "float_round (1 / 2 ^ 28 / 20) = 13421773 / 2 ^ 56"
  using float_round_near [of "-33" "1 / 2 ^ 28 / 20" 13421773]
  by (simp add: powr_neg_numeral)

lemma step_pow: "(1 / 2 ^ 28) powr (3 / 2) = (1 / 2 ^ 42 :: real)"
proof -
  have "(1 / 2 ^ 28 :: real) = 2 powr (- 28)" by (simp add: powr_neg_numeral)
  then have "(1 / 2 ^ 28 :: real) powr (3 / 2) = 2 powr (- 28 * (3 / 2))"
    by (simp only: powr_powr)
  also have "\<dots> = 1 / 2 ^ 42" by (simp add: powr_neg_numeral)
  finally show ?thesis .
qed

lemma step_powf: "float_round (1 / 2 ^ 42) = 1 / 2 ^ 42"
  using float_round_near [of "-42" "1 / 2 ^ 42" "2 ^ 23"]
  by (simp add: powr_neg_numeral)

lemma step_accel: "float_round (1 / 2 ^ 42 / 40) = 13421773 / 2 ^ 71"
  using float_round_near [of "-48" "1 / 2 ^ 42 / 40" 13421773]
  by (simp add: powr_neg_numeral)

lemma step_sum1: "float_round (lit_0_1f + 13421773 / 2 ^ 56) = lit_0_1f"
  using float_round_near [of "-4" "lit_0_1f + 13421773 / 2 ^ 56" 13421773]
  by (simp add: lit_0_1f_def powr_neg_numeral)

lemma step_sum2: "float_round (lit_0_1f + 13421773 / 2 ^ 71) = lit_0_1f"
  using float_round_near [of "-4" "lit_0_1f + 13421773 / 2 ^ 71" 13421773]
  by (simp add: lit_0_1f_def powr_neg_numeral)

lemma curve_at_0_05f: "rateToVelocityCurve libm_cr lit_0_05f = lit_0_1f"
  by (simp add: rateToVelocityCurve_def Let_def fsub_def fdiv_def fadd_def libm_cr_def
      float_round_0 float_round_lit_0_1f lit_0_05f_def)

lemma curve_at_next: "rateToVelocityCurve libm_cr next_0_05f = lit_0_1f"
proof -
  have a: "\<bar>next_0_05f\<bar> = next_0_05f" "\<not> next_0_05f < lit_0_05f"
    by (simp_all add: next_0_05f_def lit_0_05f_def)
  have x: "fsub next_0_05f lit_0_05f = 1 / 2 ^ 28"
    by (simp only: fsub_def step_x)
  have linear: "fdiv (1 / 2 ^ 28) 20 = 13421773 / 2 ^ 56"
    by (simp only: fdiv_def step_linear)
  have pw: "powf libm_cr (1 / 2 ^ 28) (3 / 2) = 1 / 2 ^ 42"
    by (simp only: libm_cr_def libm.simps step_pow step_powf)
  have accel: "fdiv (1 / 2 ^ 42) 40 = 13421773 / 2 ^ 71"
    by (simp only: fdiv_def step_accel)
  have s1: "fadd lit_0_1f (13421773 / 2 ^ 56) = lit_0_1f"
    by (simp only: fadd_def step_sum1)
  have s2: "fadd lit_0_1f (13421773 / 2 ^ 71) = lit_0_1f"
    by (simp only: fadd_def step_sum2)
  show ?thesis
    by (simp only: rateToVelocityCurve_def Let_def a if_False x linear pw accel s1 s2)
qed

text \<open>
  Claim C4 as stated (strictly increasing from 0.05 on) fails in single precision:
  \<^verbatim>\<open>0.05f\<close> and the next binary32 number are both mapped to \<^verbatim>\<open>0.1f\<close>, since the linear
  and the power term of the second are less than half a unit in the last place of
  \<^verbatim>\<open>0.1f\<close> and the additions round them away.
\<close>

theorem C4_counterexample:
  "5 / 100 \<le> lit_0_05f \<and> lit_0_05f < next_0_05f \<and>
   \<not> rateToVelocityCurve libm_cr lit_0_05f < rateToVelocityCurve libm_cr next_0_05f"
  by (simp add: curve_at_0_05f curve_at_next) (simp add: lit_0_05f_def next_0_05f_def)

lemma libm_cr_monotone: "powf_monotone libm_cr"
  unfolding powf_monotone_def libm_cr_def
  by (auto intro!: float_round_nonneg float_round_mono powr_mono2)

lemma curve_above:
  "lit_0_05f \<le> r \<Longrightarrow>
   rateToVelocityCurve M r =
     fadd (fadd lit_0_1f (fdiv (fsub r lit_0_05f) 20)) (fdiv (powf M (fsub r lit_0_05f) (3 / 2)) 40)"
  by (simp add: rateToVelocityCurve_def Let_def lit_0_05f_def)

lemma curve_below: "0 \<le> r \<Longrightarrow> r < lit_0_05f \<Longrightarrow> rateToVelocityCurve M r = 0"
  by (simp add: rateToVelocityCurve_def Let_def)

lemma tail_mono:
  assumes M: "powf_monotone M" and x: "0 \<le> x" "x \<le> y"
  shows "0 \<le> fadd (fadd lit_0_1f (fdiv x 20)) (fdiv (powf M x (3 / 2)) 40) \<and>
         fadd (fadd lit_0_1f (fdiv x 20)) (fdiv (powf M x (3 / 2)) 40)
           \<le> fadd (fadd lit_0_1f (fdiv y 20)) (fdiv (powf M y (3 / 2)) 40)"
proof -
  have p: "0 \<le> powf M x (3 / 2)" "powf M x (3 / 2) \<le> powf M y (3 / 2)"
    using M x by (simp_all add: powf_monotone_def)
  have l0: "0 \<le> fdiv x 20" unfolding fdiv_def using x by (intro float_round_nonneg) simp
  have l: "fdiv x 20 \<le> fdiv y 20" unfolding fdiv_def using x by (intro float_round_mono) simp_all
  have a0: "0 \<le> fdiv (powf M x (3 / 2)) 40"
    unfolding fdiv_def using p by (intro float_round_nonneg) simp
  have a: "fdiv (powf M x (3 / 2)) 40 \<le> fdiv (powf M y (3 / 2)) 40"
    unfolding fdiv_def using p by (intro float_round_mono) simp_all
  have c: "(0::real) \<le> lit_0_1f" by (simp add: lit_0_1f_def)
  have t0: "0 \<le> fadd lit_0_1f (fdiv x 20)"
    unfolding fadd_def using c l0 by (intro float_round_nonneg) simp
  have t: "fadd lit_0_1f (fdiv x 20) \<le> fadd lit_0_1f (fdiv y 20)"
    unfolding fadd_def using c l0 l by (intro float_round_mono) simp_all
  have "0 \<le> fadd (fadd lit_0_1f (fdiv x 20)) (fdiv (powf M x (3 / 2)) 40)"
    unfolding fadd_def [of "fadd lit_0_1f (fdiv x 20)"] using t0 a0 by (intro float_round_nonneg) simp
  moreover have "fadd (fadd lit_0_1f (fdiv x 20)) (fdiv (powf M x (3 / 2)) 40)
           \<le> fadd (fadd lit_0_1f (fdiv y 20)) (fdiv (powf M y (3 / 2)) 40)"
    unfolding fadd_def [of "fadd lit_0_1f (fdiv x 20)"] fadd_def [of "fadd lit_0_1f (fdiv y 20)"]
    using t0 a0 t a by (intro float_round_mono) simp_all
  ultimately show ?thesis by simp
qed

text \<open>
  Claim C4, as amended (monotonicity of the curve). For all inputs \<open>r1 < r2\<close> with
  \<open>0.05 \<le> r1\<close> the curve is non-decreasing, \<open>curve r1 \<le> curve r2\<close>, for every \<^verbatim>\<open>powf\<close> that is
  non-negative and non-decreasing; above the dead zone the curve computes
  \<open>0.1 + x / 20 + x ^ 1.5 / 40\<close> with \<open>x = input - 0.05\<close>, each operation rounded to single
  precision.
\<close>

theorem C4_curve_nondecreasing:
  assumes M: "powf_monotone M" and r: "5 / 100 \<le> r1" "r1 < r2"
  shows "rateToVelocityCurve M r1 \<le> rateToVelocityCurve M r2"
proof (cases "lit_0_05f \<le> r1")
  case True
  then have r2: "lit_0_05f \<le> r2" using r by simp
  have x0: "0 \<le> fsub r1 lit_0_05f"
    unfolding fsub_def using True by (intro float_round_nonneg) simp
  have x: "fsub r1 lit_0_05f \<le> fsub r2 lit_0_05f"
    unfolding fsub_def using True r by (intro float_round_mono) simp_all
  from tail_mono [OF M x0 x] show ?thesis
    by (simp add: curve_above True r2)
next
  case False
  then have z: "rateToVelocityCurve M r1 = 0" using r by (simp add: curve_below)
  show ?thesis
  proof (cases "lit_0_05f \<le> r2")
    case True
    have "0 \<le> fsub r2 lit_0_05f"
      unfolding fsub_def using True by (intro float_round_nonneg) simp
    from tail_mono [OF M this order_refl] show ?thesis
      by (simp add: curve_above True z)
  next
    case False
    then show ?thesis using r z by (simp add: curve_below)
  qed
qed

text \<open>The correctly rounded library at the two inputs of the counterexample.\<close>

theorem C4_curve_nondecreasing_witness:
  "powf_monotone libm_cr \<and> 5 / 100 \<le> lit_0_05f \<and> lit_0_05f < next_0_05f \<and>
   rateToVelocityCurve libm_cr lit_0_05f \<le> rateToVelocityCurve libm_cr next_0_05f"
proof -
  have r: "5 / 100 \<le> lit_0_05f" "lit_0_05f < next_0_05f"
    by (simp_all add: lit_0_05f_def next_0_05f_def)
  from C4_curve_nondecreasing [OF libm_cr_monotone r] libm_cr_monotone r
  show ?thesis by simp
qed

text \<open>Without rounding the formula of the curve is strictly increasing: the equality
  above comes from the rounding alone.\<close>

lemma exact_formula_strict:
  assumes "0 \<le> x" "x < (y::real)"
  shows "1 / 10 + x / 20 + x powr (3 / 2) / 40 < 1 / 10 + y / 20 + y powr (3 / 2) / 40"
proof -
  have "x powr (3 / 2) < y powr (3 / 2)"
    using assms by (intro powr_less_mono2) simp_all
  with assms show ?thesis by simp
qed

section \<open>Properties of pulse ingestion\<close>

lemma axis_velocities_total: "\<exists>v. axis_velocities M rx ry = Inr v"
  by (simp add: axis_velocities_def Let_def checked_fdiv_def)

lemma trackball_move_wheel:
  "last_mode s = MODE_WHEEL \<Longrightarrow>
   trackball_move C M a d s = Inr (s\<lparr>distances := (distances s)(a := distances s a + d)\<rparr>)"
  by (simp add: trackball_move_def Let_def int8_of_int_def)

lemma trackball_move_mouse:
  assumes "last_mode s = MODE_MOUSE"
  shows "\<exists>s' vx vy. trackball_move C M a d s = Inr s' \<and>
      axis_velocities M
        (rate_meter_rate C (((rate_meters s)(a := rate_meter_interrupt C (rate_meters s a))) AXIS_X))
        (rate_meter_rate C (((rate_meters s)(a := rate_meter_interrupt C (rate_meters s a))) AXIS_Y)) = Inr (vx, vy) \<and>
      distances s' = (distances s)(a := distances s a + d) \<and>
      rate_meters s' = (rate_meters s)(a := rate_meter_interrupt C (rate_meters s a)) \<and>
      gliders s' AXIS_X =
        (if a = AXIS_X
         then glider_update C (glider_set_direction C (gliders s AXIS_X) d) vx
                (sqrtf M (rate_meter_delta C (rate_meter_interrupt C (rate_meters s AXIS_X))))
         else glider_update_speed C (gliders s AXIS_X) vx) \<and>
      gliders s' AXIS_Y =
        (if a = AXIS_Y
         then glider_update C (glider_set_direction C (gliders s AXIS_Y) d) vy
                (sqrtf M (rate_meter_delta C (rate_meter_interrupt C (rate_meters s AXIS_Y))))
         else glider_update_speed C (gliders s AXIS_Y) vy) \<and>
      wheel_buffer s' = wheel_buffer s \<and> last_mode s' = last_mode s \<and>
      last_report s' = last_report s \<and> select_button_pressed s' = select_button_pressed s"
proof -
  obtain vx vy where v: "axis_velocities M
        (rate_meter_rate C (((rate_meters s)(a := rate_meter_interrupt C (rate_meters s a))) AXIS_X))
        (rate_meter_rate C (((rate_meters s)(a := rate_meter_interrupt C (rate_meters s a))) AXIS_Y)) = Inr (vx, vy)"
    using axis_velocities_total by (metis surj_pair)
  show ?thesis
    using assms v
    by (cases a) (simp_all add: trackball_move_def Let_def int8_of_int_def)
qed

lemma trackball_move_keeps_wheel:
  "\<exists>s'. trackball_move C M a d s = Inr s' \<and> wheel_buffer s' = wheel_buffer s"
proof (cases "last_mode s")
  case MODE_WHEEL
  then show ?thesis by (simp add: trackball_move_wheel)
next
  case MODE_MOUSE
  from trackball_move_mouse [OF this, of C M a d] show ?thesis by blast
qed

lemma float_round_1: "float_round 1 = 1"
  using float_round_near [of 0 1 "2 ^ 23"]
  by (simp add: powr_neg_numeral)

lemma combined_rate_1_0: "combined_rate libm_cr 1 0 = 1"
  by (simp add: combined_rate_def libm_cr_def fmul_def fadd_def float_round_0 float_round_1)

text \<open>
  Claim C5 (ratio zero-guard). The velocity computation of a pulse never divides by
  zero: it returns a pair of velocities for every pair of rates, and the whole pulse
  handler returns a state. When the combined rate is 0 the ratio is 0 and both
  velocities are 0; the division \<open>curve rate / rate\<close> is evaluated only when \<open>0 < rate\<close>.
\<close>

theorem C5_ratio_zero_guard:
  "(\<exists>s'. trackball_move C M a d s = Inr s') \<and>
   (\<exists>v. axis_velocities M rx ry = Inr v) \<and>
   (combined_rate M rx ry = 0 \<longrightarrow> axis_velocities M rx ry = Inr (0, 0)) \<and>
   (0 < combined_rate M rx ry \<longrightarrow>
      axis_velocities M rx ry =
        Inr (fmul rx (fdiv (rateToVelocityCurve M (combined_rate M rx ry)) (combined_rate M rx ry)),
             fmul ry (fdiv (rateToVelocityCurve M (combined_rate M rx ry)) (combined_rate M rx ry))))"
proof (intro conjI impI)
  show "\<exists>s'. trackball_move C M a d s = Inr s'"
    using trackball_move_keeps_wheel [of C M a d s] by blast
  show "\<exists>v. axis_velocities M rx ry = Inr v"
    by (rule axis_velocities_total)
next
  assume "combined_rate M rx ry = 0"
  then show "axis_velocities M rx ry = Inr (0, 0)"
    by (simp add: axis_velocities_def fmul_0_right)
next
  assume "0 < combined_rate M rx ry"
  then show "axis_velocities M rx ry =
        Inr (fmul rx (fdiv (rateToVelocityCurve M (combined_rate M rx ry)) (combined_rate M rx ry)),
             fmul ry (fdiv (rateToVelocityCurve M (combined_rate M rx ry)) (combined_rate M rx ry)))"
    by (simp add: axis_velocities_def Let_def checked_fdiv_def)
qed

text \<open>Both axes idle, and the x axis at rate 1.\<close>

theorem C5_ratio_zero_guard_witness:
  "combined_rate libm_cr 0 0 = 0 \<and> axis_velocities libm_cr 0 0 = Inr (0, 0) \<and>
   0 < combined_rate libm_cr 1 0 \<and>
   axis_velocities libm_cr 1 0 =
     Inr (fmul 1 (fdiv (rateToVelocityCurve libm_cr 1) 1), fmul 0 (fdiv (rateToVelocityCurve libm_cr 1) 1))"
proof -
  have z: "combined_rate libm_cr 0 0 = 0"
    by (simp add: combined_rate_def libm_cr_def fmul_def fadd_def float_round_0)
  from C5_ratio_zero_guard [of sim_collab libm_cr AXIS_X TB_INCR sim_gliding 0 0] z
  have 1: "axis_velocities libm_cr 0 0 = Inr (0, 0)" by simp
  from C5_ratio_zero_guard [of sim_collab libm_cr AXIS_X TB_INCR sim_gliding 1 0] combined_rate_1_0
  have 2: "axis_velocities libm_cr 1 0 =
     Inr (fmul 1 (fdiv (rateToVelocityCurve libm_cr 1) 1), fmul 0 (fdiv (rateToVelocityCurve libm_cr 1) 1))"
    by simp
  from z 1 2 combined_rate_1_0 show ?thesis by simp
qed

section \<open>Eight-bit arithmetic of the wheel\<close>

lemma sint_WHEEL_DENOM: "sint WHEEL_DENOM = 2"
  by (simp add: WHEEL_DENOM_def)

lemma sdiv2_bounds: "- 128 \<le> (k::int) \<Longrightarrow> k < 128 \<Longrightarrow> - 64 \<le> k sdiv 2 \<and> k sdiv 2 < 64"
  by (auto simp: signed_divide_int_def sgn_if abs_if)

lemma sint_int8_of_int: "- 128 \<le> k \<Longrightarrow> k < 128 \<Longrightarrow> sint (int8_of_int k) = k"
  unfolding int8_of_int_def
  by (simp add: sint_sbintrunc' signed_take_bit_int_eq_self)

lemma sint8_range: "- 128 \<le> sint (w::int8_t) \<and> sint w < 128"
  using sint_ge [of w] sint_lt [of w] by simp

lemma srem2: "\<bar>(k::int) - (k sdiv 2) * 2\<bar> < 2"
  by (auto simp: signed_divide_int_def sgn_if abs_if)

lemma sdiv2_small: "\<bar>k::int\<bar> < 2 \<Longrightarrow> k sdiv 2 = 0"
  by (auto simp: signed_divide_int_def sgn_if abs_if)

lemma int8_of_int_0: "int8_of_int 0 = 0"
  by (simp add: int8_of_int_def)

lemma int8_of_int_sint: "int8_of_int (sint w) = w"
  by (simp add: int8_of_int_def)

lemma sint_tick: "sint (int8_of_int (sint (w::int8_t) sdiv 2)) = sint w sdiv 2"
proof -
  have "- 128 \<le> sint w sdiv 2 \<and> sint w sdiv 2 < 128"
    using sdiv2_bounds [of "sint w"] sint8_range [of w] by linarith
  then show ?thesis by (simp add: sint_int8_of_int)
qed

lemma remainder_bound:
  "\<bar>sint (int8_of_int (sint (w::int8_t) - sint (int8_of_int (sint w sdiv 2)) * 2))\<bar> < 2"
proof -
  have r: "\<bar>sint w - (sint w sdiv 2) * 2\<bar> < 2" by (rule srem2)
  then have "sint (int8_of_int (sint w - (sint w sdiv 2) * 2)) = sint w - (sint w sdiv 2) * 2"
    by (intro sint_int8_of_int) linarith+
  with r show ?thesis by (simp add: sint_tick)
qed

lemma remainder_small:
  "\<bar>sint (w::int8_t)\<bar> < 2 \<Longrightarrow>
   int8_of_int (sint w sdiv 2) = 0 \<and>
   int8_of_int (sint w - sint (int8_of_int (sint w sdiv 2)) * 2) = w"
  by (simp add: sdiv2_small int8_of_int_0 int8_of_int_sint)

section \<open>The four cases of a report tick\<close>

lemma stopped_stop: "glider_stopped C (glider_stop C g)"
  by (auto simp: glider_stopped_def)

lemma sim_contract: "stopped_glider_stays_stopped sim_collab"
  apply (auto simp: stopped_glider_stays_stopped_def glider_stopped_def sim_collab_def int8_of_int_0)
  subgoal for g0 d
    by (rule exI [of _ "g0\<lparr>sim_samples := unat d # sim_samples g0\<rparr>"]) simp
  done

lemma sim_stopped_iff: "glider_stopped sim_collab g \<longleftrightarrow> sim_speed g = 0"
proof
  assume "glider_stopped sim_collab g"
  then show "sim_speed g = 0" by (auto simp: glider_stopped_def sim_collab_def)
next
  assume "sim_speed g = 0"
  then have "g = glider_stop sim_collab g" by (simp add: sim_collab_def)
  then show "glider_stopped sim_collab g" unfolding glider_stopped_def by blast
qed

lemma switch_to_wheel:
  assumes "select_button_pressed s" "last_mode s \<noteq> MODE_WHEEL"
  shows "report_section C now s =
    ((0, 0, 0, 0),
     s\<lparr>last_report := now,
       rate_meters := (rate_meters s)(AXIS_X := rate_meter_expire C (rate_meters s AXIS_X), AXIS_Y := rate_meter_expire C (rate_meters s AXIS_Y)),
       gliders := (gliders s)(AXIS_X := glider_stop C (gliders s AXIS_X), AXIS_Y := glider_stop C (gliders s AXIS_Y)),
       last_mode := MODE_WHEEL,
       wheel_buffer := (wheel_buffer s)(AXIS_X := 0, AXIS_Y := 0), distances := (distances s)(AXIS_X := 0, AXIS_Y := 0)\<rparr>)"
  using assms
  by (simp add: report_section_def reset_or_tick_def selected_mode_def Let_def sint_WHEEL_DENOM int8_of_int_0)

lemma switch_to_mouse:
  assumes "\<not> select_button_pressed s" "last_mode s \<noteq> MODE_MOUSE"
  shows "report_section C now s =
    ((fst (glider_glide C (glider_stop C (gliders s AXIS_X)) (ucast (TIMER_DIFF_16 now (last_report s)))),
      fst (glider_glide C (glider_stop C (gliders s AXIS_Y)) (ucast (TIMER_DIFF_16 now (last_report s)))), 0, 0),
     s\<lparr>last_report := now,
       rate_meters := (rate_meters s)(AXIS_X := rate_meter_expire C (rate_meters s AXIS_X), AXIS_Y := rate_meter_expire C (rate_meters s AXIS_Y)),
       gliders := (gliders s)
          (AXIS_X := snd (glider_glide C (glider_stop C (gliders s AXIS_X)) (ucast (TIMER_DIFF_16 now (last_report s)))),
           AXIS_Y := snd (glider_glide C (glider_stop C (gliders s AXIS_Y)) (ucast (TIMER_DIFF_16 now (last_report s))))),
       last_mode := MODE_MOUSE,
       wheel_buffer := (wheel_buffer s)(AXIS_X := 0, AXIS_Y := 0), distances := (distances s)(AXIS_X := 0, AXIS_Y := 0)\<rparr>)"
  using assms
  by (simp add: report_section_def reset_or_tick_def selected_mode_def Let_def split: prod.splits)

lemma stay_mouse:
  assumes "\<not> select_button_pressed s" "last_mode s = MODE_MOUSE"
  shows "report_section C now s =
    ((fst (glider_glide C (gliders s AXIS_X) (ucast (TIMER_DIFF_16 now (last_report s)))),
      fst (glider_glide C (gliders s AXIS_Y) (ucast (TIMER_DIFF_16 now (last_report s)))), 0, 0),
     s\<lparr>last_report := now,
       rate_meters := (rate_meters s)
          (AXIS_X := rate_meter_tick C (rate_meters s AXIS_X) (TIMER_DIFF_16 now (last_report s)),
           AXIS_Y := rate_meter_tick C (rate_meters s AXIS_Y) (TIMER_DIFF_16 now (last_report s))),
       gliders := (gliders s)
          (AXIS_X := snd (glider_glide C (gliders s AXIS_X) (ucast (TIMER_DIFF_16 now (last_report s)))),
           AXIS_Y := snd (glider_glide C (gliders s AXIS_Y) (ucast (TIMER_DIFF_16 now (last_report s))))),
       last_mode := MODE_MOUSE,
       distances := (distances s)(AXIS_X := 0, AXIS_Y := 0)\<rparr>)"
  using assms
  by (simp add: report_section_def reset_or_tick_def selected_mode_def Let_def split: prod.splits)

lemma stay_wheel:
  assumes "select_button_pressed s" "last_mode s = MODE_WHEEL"
  shows "report_section C now s =
    ((0, 0,
      int8_of_int (sint (int8_of_int (sint (wheel_buffer s AXIS_X) + sint (distances s AXIS_X))) sdiv 2),
      int8_of_int (sint (int8_of_int (sint (wheel_buffer s AXIS_Y) + sint (distances s AXIS_Y))) sdiv 2)),
     s\<lparr>last_report := now,
       rate_meters := (rate_meters s)
          (AXIS_X := rate_meter_tick C (rate_meters s AXIS_X) (TIMER_DIFF_16 now (last_report s)),
           AXIS_Y := rate_meter_tick C (rate_meters s AXIS_Y) (TIMER_DIFF_16 now (last_report s))),
       last_mode := MODE_WHEEL,
       wheel_buffer := (wheel_buffer s)
          (AXIS_X := int8_of_int (sint (int8_of_int (sint (wheel_buffer s AXIS_X) + sint (distances s AXIS_X)))
                       - sint (int8_of_int (sint (int8_of_int (sint (wheel_buffer s AXIS_X) + sint (distances s AXIS_X))) sdiv 2)) * 2),
           AXIS_Y := int8_of_int (sint (int8_of_int (sint (wheel_buffer s AXIS_Y) + sint (distances s AXIS_Y)))
                       - sint (int8_of_int (sint (int8_of_int (sint (wheel_buffer s AXIS_Y) + sint (distances s AXIS_Y))) sdiv 2)) * 2)),
       distances := (distances s)(AXIS_X := 0, AXIS_Y := 0)\<rparr>)"
  using assms
  by (simp add: report_section_def reset_or_tick_def selected_mode_def Let_def sint_WHEEL_DENOM)

lemma get_report_eq:
  "pointing_device_driver_get_report C now mr s =
     (mr\<lparr>report_x := fst (fst (report_section C now s)),
         report_y := fst (snd (fst (report_section C now s))),
         report_h := fst (snd (snd (fst (report_section C now s)))),
         report_v := int8_of_int (- sint (snd (snd (snd (fst (report_section C now s))))))\<rparr>,
      snd (report_section C now s))"
  by (simp add: pointing_device_driver_get_report_def split: prod.splits)

lemma snd_get_report: "snd (pointing_device_driver_get_report C now mr s) = snd (report_section C now s)"
  by (simp add: get_report_eq)

lemma mode_cases:
  obtains (to_wheel) "select_button_pressed s" "last_mode s \<noteq> MODE_WHEEL"
  | (to_mouse) "\<not> select_button_pressed s" "last_mode s \<noteq> MODE_MOUSE"
  | (in_mouse) "\<not> select_button_pressed s" "last_mode s = MODE_MOUSE"
  | (in_wheel) "select_button_pressed s" "last_mode s = MODE_WHEEL"
  by blast

lemma tick_post:
  "last_mode (snd (report_section C now s)) = selected_mode s \<and>
   select_button_pressed (snd (report_section C now s)) = select_button_pressed s \<and>
   last_report (snd (report_section C now s)) = now \<and>
   distances (snd (report_section C now s)) a = 0"
proof (cases s rule: mode_cases)
  case to_wheel from switch_to_wheel [OF this, of C now] to_wheel show ?thesis
    by (cases a) (simp_all add: selected_mode_def)
next
  case to_mouse from switch_to_mouse [OF this, of C now] to_mouse show ?thesis
    by (cases a) (simp_all add: selected_mode_def)
next
  case in_mouse from stay_mouse [OF this, of C now] in_mouse show ?thesis
    by (cases a) (simp_all add: selected_mode_def)
next
  case in_wheel from stay_wheel [OF this, of C now] in_wheel show ?thesis
    by (cases a) (simp_all add: selected_mode_def)
qed

lemma tick_wheel_bound:
  assumes "select_button_pressed s"
  shows "\<bar>sint (wheel_buffer (snd (report_section C now s)) a)\<bar> < 2"
proof (cases "last_mode s = MODE_WHEEL")
  case True
  from stay_wheel [OF assms True, of C now] show ?thesis
    by (cases a) (simp_all add: remainder_bound)
next
  case False
  from switch_to_wheel [OF assms False, of C now] show ?thesis
    by (cases a) simp_all
qed

lemma tick_mouse_bound:
  assumes "\<not> select_button_pressed s" "\<bar>sint (wheel_buffer s a)\<bar> < 2"
  shows "\<bar>sint (wheel_buffer (snd (report_section C now s)) a)\<bar> < 2"
proof (cases "last_mode s = MODE_MOUSE")
  case True
  from stay_mouse [OF assms(1) True, of C now] assms(2) show ?thesis
    by simp
next
  case False
  from switch_to_mouse [OF assms(1) False, of C now] show ?thesis
    by (cases a) simp_all
qed

lemma tick_bound:
  assumes "\<bar>sint (wheel_buffer s a)\<bar> < 2"
  shows "\<bar>sint (wheel_buffer (snd (report_section C now s)) a)\<bar> < 2"
  using tick_wheel_bound [of s C now a] tick_mouse_bound [OF _ assms, of C now]
  by blast

section \<open>Properties of the report\<close>

text \<open>
  Claim C1 (mode-switch reset). On a report tick where the mode selected by the button
  flag differs from the mode of the previous tick, whatever the accumulators, the rate
  meters and the gliders hold: both rate meters are expired, both gliders are stopped
  (in MOUSE mode the stopped glider is then sampled), the wheel buffer and the raw
  distances are zero for both axes, and the report of this tick has x, y, h and v equal
  to 0. The fields x and y are 0 on entering WHEEL mode; on entering MOUSE mode they
  are what the freshly stopped gliders return, which is 0 by the contract of the glider.
\<close>

theorem C1_mode_switch_reset:
  assumes sw: "selected_mode s \<noteq> last_mode s"
    and run: "pointing_device_driver_get_report C now mouse_report s = (rep, s')"
  shows "rate_meters s' a = rate_meter_expire C (rate_meters s a) \<and>
         gliders s' a =
           (if select_button_pressed s then glider_stop C (gliders s a)
            else snd (glider_glide C (glider_stop C (gliders s a))
                        (ucast (TIMER_DIFF_16 now (last_report s))))) \<and>
         wheel_buffer s' a = 0 \<and> distances s' a = 0 \<and>
         report_h rep = 0 \<and> report_v rep = 0 \<and>
         (select_button_pressed s \<or> stopped_glider_stays_stopped C \<longrightarrow>
            report_x rep = 0 \<and> report_y rep = 0 \<and> glider_stopped C (gliders s' a))"
proof (cases "select_button_pressed s")
  case True
  with sw have "last_mode s \<noteq> MODE_WHEEL" by (simp add: selected_mode_def)
  from switch_to_wheel [OF True this, of C now] run
  show ?thesis
    by (cases a) (auto simp: get_report_eq True int8_of_int_0 stopped_stop)
next
  case False
  with sw have lm: "last_mode s \<noteq> MODE_MOUSE" by (simp add: selected_mode_def)
  have z: "fst (glider_glide C (glider_stop C g) d) = 0 \<and>
           glider_stopped C (snd (glider_glide C (glider_stop C g) d))"
    if "stopped_glider_stays_stopped C" for g d
    using that stopped_stop [of C g] by (simp add: stopped_glider_stays_stopped_def)
  from switch_to_mouse [OF False lm, of C now] run
  show ?thesis
    by (cases a) (auto simp: get_report_eq False int8_of_int_0 z)
qed

theorem C1_mode_switch_reset_witness:
  "selected_mode sim_moving \<noteq> last_mode sim_moving \<and>
   stopped_glider_stays_stopped sim_collab \<and>
   distances sim_moving AXIS_X = 3 \<and> wheel_buffer sim_moving AXIS_X = 1 \<and>
   distances (snd (pointing_device_driver_get_report sim_collab 110 report0 sim_moving)) AXIS_X = 0 \<and>
   wheel_buffer (snd (pointing_device_driver_get_report sim_collab 110 report0 sim_moving)) AXIS_X = 0 \<and>
   report_x (fst (pointing_device_driver_get_report sim_collab 110 report0 sim_moving)) = 0"
proof -
  have sw: "selected_mode sim_moving \<noteq> last_mode sim_moving"
    by (simp add: selected_mode_def sim_moving_def)
  have st: "distances sim_moving AXIS_X = 3 \<and> wheel_buffer sim_moving AXIS_X = 1"
    by (simp add: sim_moving_def)
  show ?thesis
    using C1_mode_switch_reset [OF sw surjective_pairing, of sim_collab 110 report0 AXIS_X]
      sw sim_contract st
    by simp
qed

text \<open>
  Claim C10 (frame of the inactive mode). On a report tick without a mode transition:
  in MOUSE mode the scroll fields h and v of the report are 0 and the wheel buffer is
  unchanged for both axes; in WHEEL mode the cursor fields x and y are 0 and the gliders
  are unchanged, so they were not sampled.
\<close>

theorem C10_inactive_mode_untouched:
  assumes same: "selected_mode s = last_mode s"
    and run: "pointing_device_driver_get_report C now mouse_report s = (rep, s')"
  shows "(\<not> select_button_pressed s \<longrightarrow>
            report_h rep = 0 \<and> report_v rep = 0 \<and> wheel_buffer s' = wheel_buffer s) \<and>
         (select_button_pressed s \<longrightarrow>
            report_x rep = 0 \<and> report_y rep = 0 \<and> gliders s' = gliders s)"
proof (cases "select_button_pressed s")
  case True
  with same have "last_mode s = MODE_WHEEL" by (simp add: selected_mode_def)
  from stay_wheel [OF True this, of C now] run
  show ?thesis by (auto simp: get_report_eq True)
next
  case False
  with same have "last_mode s = MODE_MOUSE" by (simp add: selected_mode_def)
  from stay_mouse [OF False this, of C now] run
  show ?thesis by (auto simp: get_report_eq False int8_of_int_0)
qed

theorem C10_inactive_mode_untouched_witness:
  "selected_mode sim_scrolling = last_mode sim_scrolling \<and> select_button_pressed sim_scrolling \<and>
   report_x (fst (pointing_device_driver_get_report sim_collab 9 report0 sim_scrolling)) = 0 \<and>
   gliders (snd (pointing_device_driver_get_report sim_collab 9 report0 sim_scrolling)) = gliders sim_scrolling"
proof -
  have h: "selected_mode sim_scrolling = last_mode sim_scrolling"
    by (simp add: selected_mode_def sim_scrolling_def)
  have p: "select_button_pressed sim_scrolling"
    by (simp add: sim_scrolling_def)
  show ?thesis
    using C10_inactive_mode_untouched [OF h surjective_pairing, of sim_collab 9 report0] h p
    by simp
qed

lemma report_section_v_range:
  assumes "report_section C now s = ((x, y, h, v), s')"
  shows "- 64 \<le> sint v \<and> sint v < 64"
proof (cases s rule: mode_cases)
  case to_wheel from switch_to_wheel [OF this, of C now] assms show ?thesis by auto
next
  case to_mouse from switch_to_mouse [OF this, of C now] assms show ?thesis by auto
next
  case in_mouse from stay_mouse [OF this, of C now] assms show ?thesis by auto
next
  case in_wheel
  from stay_wheel [OF this, of C now] assms
  have "v = int8_of_int (sint (int8_of_int (sint (wheel_buffer s AXIS_Y) + sint (distances s AXIS_Y))) sdiv 2)"
    by simp
  then show ?thesis
    using sdiv2_bounds [OF conjunct1 [OF sint8_range] conjunct2 [OF sint8_range]]
    by (simp add: sint_tick)
qed

text \<open>
  Claim C9 (scroll inversion). For every report tick, with \<open>h\<close> and \<open>v\<close> the tick values
  computed inside the critical section: the field h of the report is \<open>h\<close>, and the field v
  is the negation of \<open>v\<close>, as an 8-bit value and as a signed number (the negation never
  overflows, since \<open>v\<close> is a quotient by 2).
\<close>

theorem C9_scroll_inversion:
  assumes sec: "report_section C now s = ((x, y, h, v), s')"
  shows "report_h (fst (pointing_device_driver_get_report C now mouse_report s)) = h \<and>
         report_v (fst (pointing_device_driver_get_report C now mouse_report s)) = - v \<and>
         sint (report_v (fst (pointing_device_driver_get_report C now mouse_report s))) = - sint v"
proof -
  have r: "- 128 \<le> - sint v \<and> - sint v < 128"
    using report_section_v_range [OF sec] by linarith
  have "sint (int8_of_int (- sint v)) = - sint v"
    using r by (simp add: sint_int8_of_int)
  moreover have "int8_of_int (- sint v) = - v"
    by (simp add: int8_of_int_def)
  ultimately show ?thesis
    by (simp add: get_report_eq sec)
qed

lemma sim_scrolling_section:
  "fst (report_section sim_collab 9 sim_scrolling) = (0, 0, 2, 1)"
  by (simp add: report_section_def reset_or_tick_def selected_mode_def sim_scrolling_def
      Let_def WHEEL_DENOM_def int8_of_int_def signed_divide_int_def)

text \<open>Scrolling with raw distances 5 and 2: the ticks are 2 and 1, the report carries
  2 and -1.\<close>

theorem C9_scroll_inversion_witness:
  "fst (report_section sim_collab 9 sim_scrolling) = (0, 0, 2, 1) \<and>
   report_h (fst (pointing_device_driver_get_report sim_collab 9 report0 sim_scrolling)) = 2 \<and>
   sint (report_v (fst (pointing_device_driver_get_report sim_collab 9 report0 sim_scrolling))) = - 1"
proof -
  have "report_section sim_collab 9 sim_scrolling =
          ((0, 0, 2, 1), snd (report_section sim_collab 9 sim_scrolling))"
    using sim_scrolling_section by (metis prod.collapse)
  from C9_scroll_inversion [OF this, of report0] sim_scrolling_section
  show ?thesis by simp
qed

lemma TIMER_DIFF_16_wrap:
  "uint (TIMER_DIFF_16 now lst) = (uint now - uint lst) mod 65536"
  by (simp add: TIMER_DIFF_16_def uint_word_ariths)

lemma unat_ucast_16_8: "unat (ucast (w::uint16_t) :: uint8_t) = unat w mod 256"
  by (simp add: unsigned_ucast_eq take_bit_eq_mod)

lemma sim_gliding_tick:
  "report_x (fst (pointing_device_driver_get_report sim_collab now report0 sim_gliding)) =
     int8_of_int (\<lfloor>2 * real (unat (ucast (now - 65530 :: uint16_t) :: uint8_t))\<rfloor>) \<and>
   sim_samples (gliders (snd (pointing_device_driver_get_report sim_collab now report0 sim_gliding)) AXIS_X) =
     [unat (ucast (now - 65530 :: uint16_t) :: uint8_t)]"
  by (simp add: pointing_device_driver_get_report_def report_section_def reset_or_tick_def
      selected_mode_def sim_gliding_def sim_collab_def Let_def TIMER_DIFF_16_def report0_def
      int8_of_int_def)

text \<open>
  Claim C8 as stated (the gliders are sampled with the elapsed time) fails when 256 ms
  or more have elapsed: line 120 casts the elapsed time to \<^verbatim>\<open>uint8_t\<close>. With the last
  report at 65530 and the timer at 250 the elapsed time is 256, the glider is sampled
  with 0, and although it moves at speed 2 the report carries no motion.
\<close>

theorem C8_counterexample:
  "sim_samples (gliders (snd (pointing_device_driver_get_report sim_collab 250 report0 sim_gliding)) AXIS_X)
     \<noteq> [unat (TIMER_DIFF_16 250 (last_report sim_gliding))] \<and>
   unat (TIMER_DIFF_16 250 (last_report sim_gliding)) = 256 \<and>
   sim_samples (gliders (snd (pointing_device_driver_get_report sim_collab 250 report0 sim_gliding)) AXIS_X) = [0] \<and>
   report_x (fst (pointing_device_driver_get_report sim_collab 250 report0 sim_gliding)) = 0"
  by (simp add: sim_gliding_tick) (simp add: TIMER_DIFF_16_def sim_gliding_def int8_of_int_def)

text \<open>
  Claim C8, as amended (sampling the gliders). On every MOUSE-mode report tick the
  elapsed time is the difference of the timer and the last report modulo \<open>2 ^ 16\<close>; each
  glider (stopped first when the mode has just changed) is sampled with the low eight
  bits of that elapsed time, which is the elapsed time modulo 256; the values returned
  are the fields x and y of the report, and the gliders returned are the new gliders.
\<close>

theorem C8_glide_sample:
  assumes mouse: "\<not> select_button_pressed s"
    and run: "pointing_device_driver_get_report C now mouse_report s = (rep, s')"
    and delta: "delta = TIMER_DIFF_16 now (last_report s)"
    and g: "g = (if last_mode s = MODE_MOUSE then gliders s else (\<lambda>a. glider_stop C (gliders s a)))"
  shows "uint delta = (uint now - uint (last_report s)) mod 65536 \<and>
         unat (ucast delta :: uint8_t) = unat delta mod 256 \<and>
         report_x rep = fst (glider_glide C (g AXIS_X) (ucast delta)) \<and>
         report_y rep = fst (glider_glide C (g AXIS_Y) (ucast delta)) \<and>
         gliders s' a = snd (glider_glide C (g a) (ucast delta))"
proof (cases "last_mode s = MODE_MOUSE")
  case True
  from stay_mouse [OF mouse True, of C now] run
  show ?thesis
    unfolding delta g
    by (cases a) (auto simp: get_report_eq TIMER_DIFF_16_wrap unat_ucast_16_8 True)
next
  case False
  from switch_to_mouse [OF mouse False, of C now] run
  show ?thesis
    unfolding delta g
    by (cases a) (auto simp: get_report_eq TIMER_DIFF_16_wrap unat_ucast_16_8 False)
qed

text \<open>Across the wrap of the timer: from 65530 to 4 the elapsed time is 10.\<close>

theorem C8_glide_sample_witness:
  "\<not> select_button_pressed sim_gliding \<and>
   uint (TIMER_DIFF_16 4 (last_report sim_gliding)) = 10 \<and>
   report_x (fst (pointing_device_driver_get_report sim_collab 4 report0 sim_gliding)) = 20 \<and>
   sim_samples (gliders (snd (pointing_device_driver_get_report sim_collab 4 report0 sim_gliding)) AXIS_X) = [10]"
proof -
  have m: "\<not> select_button_pressed sim_gliding" by (simp add: sim_gliding_def)
  have d: "TIMER_DIFF_16 4 (last_report sim_gliding) = 10"
    by (simp add: TIMER_DIFF_16_def sim_gliding_def)
  from C8_glide_sample [where C = sim_collab and now = 4 and mouse_report = report0 and a = AXIS_X,
      OF m surjective_pairing refl refl] m d
  show ?thesis
    by (simp add: sim_gliding_def sim_collab_def int8_of_int_def)
qed

text \<open>
  Claim C7 (no motion, no output). Two consecutive report ticks with no pulse and no
  change of the button flag in between, the second running on the state the first one
  left. In MOUSE mode, if the gliders are stopped after the first tick, the second report
  has x and y equal to 0 and the gliders are still stopped. In WHEEL mode the second
  report has h and v equal to 0 and the second tick leaves the wheel buffer unchanged.
\<close>

theorem C7_no_motion:
  assumes t1: "pointing_device_driver_get_report C now1 mr1 s0 = (rep1, s1)"
    and t2: "pointing_device_driver_get_report C now2 mr2 s1 = (rep2, s2)"
  shows "(\<not> select_button_pressed s0 \<and> stopped_glider_stays_stopped C \<and>
            glider_stopped C (gliders s1 AXIS_X) \<and> glider_stopped C (gliders s1 AXIS_Y) \<longrightarrow>
            report_x rep2 = 0 \<and> report_y rep2 = 0 \<and>
            glider_stopped C (gliders s2 AXIS_X) \<and> glider_stopped C (gliders s2 AXIS_Y)) \<and>
         (select_button_pressed s0 \<longrightarrow>
            report_h rep2 = 0 \<and> report_v rep2 = 0 \<and> wheel_buffer s2 = wheel_buffer s1)"
proof -
  have s1: "s1 = snd (report_section C now1 s0)"
    using t1 by (simp add: get_report_eq)
  have post: "last_mode s1 = selected_mode s0" "select_button_pressed s1 = select_button_pressed s0"
    "distances s1 AXIS_X = 0" "distances s1 AXIS_Y = 0"
    unfolding s1 using tick_post [of C now1 s0] by simp_all
  show ?thesis
  proof (intro conjI impI)
    assume a: "\<not> select_button_pressed s0 \<and> stopped_glider_stays_stopped C \<and>
            glider_stopped C (gliders s1 AXIS_X) \<and> glider_stopped C (gliders s1 AXIS_Y)"
    then have m: "\<not> select_button_pressed s1" "last_mode s1 = MODE_MOUSE"
      using post by (simp_all add: selected_mode_def)
    have z: "fst (glider_glide C (gliders s1 b) d) = 0 \<and>
             glider_stopped C (snd (glider_glide C (gliders s1 b) d))" for b d
      using a by (cases b) (simp_all add: stopped_glider_stays_stopped_def)
    from stay_mouse [OF m, of C now2] t2
    show "report_x rep2 = 0" "report_y rep2 = 0"
      "glider_stopped C (gliders s2 AXIS_X)" "glider_stopped C (gliders s2 AXIS_Y)"
      by (auto simp: get_report_eq z)
  next
    assume a: "select_button_pressed s0"
    then have w: "select_button_pressed s1" "last_mode s1 = MODE_WHEEL"
      using post by (simp_all add: selected_mode_def)
    have b: "\<bar>sint (wheel_buffer s1 c)\<bar> < 2" for c
      unfolding s1 using tick_wheel_bound [OF a] .
    from stay_wheel [OF w, of C now2] t2
    show "report_h rep2 = 0" "report_v rep2 = 0" "wheel_buffer s2 = wheel_buffer s1"
      using remainder_small [OF b [of AXIS_X]] remainder_small [OF b [of AXIS_Y]]
      by (auto simp: get_report_eq post int8_of_int_sint int8_of_int_0)
  qed
qed

lemma sim_moving_tick:
  "\<not> select_button_pressed sim_moving \<and>
   sim_speed (gliders (snd (pointing_device_driver_get_report sim_collab 110 report0 sim_moving)) AXIS_X) = 0 \<and>
   sim_speed (gliders (snd (pointing_device_driver_get_report sim_collab 110 report0 sim_moving)) AXIS_Y) = 0"
  by (simp add: pointing_device_driver_get_report_def report_section_def reset_or_tick_def
      selected_mode_def sim_moving_def sim_collab_def Let_def TIMER_DIFF_16_def)

theorem C7_no_motion_witness:
  "\<not> select_button_pressed sim_moving \<and> stopped_glider_stays_stopped sim_collab \<and>
   report_x (fst (pointing_device_driver_get_report sim_collab 120 report0
      (snd (pointing_device_driver_get_report sim_collab 110 report0 sim_moving)))) = 0 \<and>
   select_button_pressed sim_scrolling \<and>
   report_h (fst (pointing_device_driver_get_report sim_collab 20 report0
      (snd (pointing_device_driver_get_report sim_collab 9 report0 sim_scrolling)))) = 0 \<and>
   wheel_buffer (snd (pointing_device_driver_get_report sim_collab 20 report0
      (snd (pointing_device_driver_get_report sim_collab 9 report0 sim_scrolling)))) =
   wheel_buffer (snd (pointing_device_driver_get_report sim_collab 9 report0 sim_scrolling))"
proof -
  have p: "select_button_pressed sim_scrolling" by (simp add: sim_scrolling_def)
  from C7_no_motion [where C = sim_collab and ?now1.0 = 110 and ?mr1.0 = report0
      and ?s0.0 = sim_moving and ?now2.0 = 120 and ?mr2.0 = report0,
      OF surjective_pairing surjective_pairing]
    sim_moving_tick sim_contract
  have 1: "report_x (fst (pointing_device_driver_get_report sim_collab 120 report0
      (snd (pointing_device_driver_get_report sim_collab 110 report0 sim_moving)))) = 0"
    by (simp add: sim_stopped_iff)
  from C7_no_motion [where C = sim_collab and ?now1.0 = 9 and ?mr1.0 = report0
      and ?s0.0 = sim_scrolling and ?now2.0 = 20 and ?mr2.0 = report0,
      OF surjective_pairing surjective_pairing] p
  have 2: "report_h (fst (pointing_device_driver_get_report sim_collab 20 report0
      (snd (pointing_device_driver_get_report sim_collab 9 report0 sim_scrolling)))) = 0 \<and>
   wheel_buffer (snd (pointing_device_driver_get_report sim_collab 20 report0
      (snd (pointing_device_driver_get_report sim_collab 9 report0 sim_scrolling)))) =
   wheel_buffer (snd (pointing_device_driver_get_report sim_collab 9 report0 sim_scrolling))"
    by simp
  from 1 2 p sim_moving_tick sim_contract show ?thesis by simp
qed

section \<open>Properties of a pulse\<close>

lemma mod_wrap8:
  assumes "- 256 \<le> k" "k < 256"
  shows "(k + 128) mod 256 - 128 = wrap8 k"
proof -
  consider "k < - 128" | "- 128 \<le> k" "k \<le> 127" | "127 < k" by linarith
  then show ?thesis
  proof cases
    case 1
    have "(k + 128) mod 256 = (k + 384) mod 256"
      using mod_add_self2 [of "k + 128" 256] by (simp add: add.commute)
    also have "\<dots> = k + 384"
      using 1 assms by (intro mod_pos_pos_trivial) linarith+
    finally show ?thesis using 1 by (simp add: wrap8_def)
  next
    case 2
    then have "(k + 128) mod 256 = k + 128"
      by (intro mod_pos_pos_trivial) linarith+
    then show ?thesis using 2 by (simp add: wrap8_def)
  next
    case 3
    have "(k + 128) mod 256 = (k - 128) mod 256"
      using mod_add_self2 [of "k - 128" 256] by (simp add: add.commute)
    also have "\<dots> = k - 128"
      using 3 assms by (intro mod_pos_pos_trivial) linarith+
    finally show ?thesis using 3 by (simp add: wrap8_def)
  qed
qed

lemma sint_add8:
  "sint ((x::int8_t) + d) = wrap8 (sint x + sint d)"
proof -
  have r: "- 256 \<le> sint x + sint d" "sint x + sint d < 256"
    using sint8_range [of x] sint8_range [of d] by linarith+
  have "sint (x + d) = signed_take_bit 7 (sint x + sint d)"
    by (simp add: sint_word_ariths)
  also have "\<dots> = take_bit 8 (sint x + sint d + 128) - 128"
    by (simp only: signed_take_bit_eq_take_bit_shift [of 7]) simp
  also have "\<dots> = (sint x + sint d + 128) mod 256 - 128"
    by (simp only: take_bit_eq_mod) simp
  also have "\<dots> = wrap8 (sint x + sint d)"
    using r by (rule mod_wrap8)
  finally show ?thesis .
qed

lemma run_rights:
  "last_mode s = MODE_WHEEL \<Longrightarrow>
   run C M (replicate n Right) s =
     Inr (s\<lparr>distances := (distances s)(AXIS_X := distances s AXIS_X + of_nat n)\<rparr>)"
proof (induction n arbitrary: s)
  case 0
  then show ?case by simp
next
  case (Suc n)
  have t: "TB_INCR = 1" by (simp add: TB_INCR_def int8_of_int_def)
  have st: "step C M Right s = Inr (s\<lparr>distances := (distances s)(AXIS_X := distances s AXIS_X + 1)\<rparr>)"
    using Suc.prems by (simp add: trackball_right_def trackball_move_wheel t)
  have "last_mode (s\<lparr>distances := (distances s)(AXIS_X := distances s AXIS_X + 1)\<rparr>) = MODE_WHEEL"
    using Suc.prems by simp
  from Suc.IH [OF this] st show ?case
    by (simp add: add.assoc cong: if_cong)
qed

lemma reach_switched:
  "run sim_collab libm_cr [Select True, Report 0 report0] (initial 0 sim_glider0) =
     Inr (sim_full\<lparr>distances := (\<lambda>_. 0)\<rparr>)"
proof -
  have p: "select_button_pressed ((initial 0 sim_glider0 :: (float, sim_glider) trackball)\<lparr>select_button_pressed := True\<rparr>)"
    "last_mode ((initial 0 sim_glider0 :: (float, sim_glider) trackball)\<lparr>select_button_pressed := True\<rparr>) \<noteq> MODE_WHEEL"
    by (simp_all add: initial_def)
  show ?thesis
    by (simp add: snd_get_report switch_to_wheel [OF p])
      (simp add: initial_def sim_full_def sim_collab_def sim_glider0_def fun_eq_iff)
qed

lemma reach_full:
  "run sim_collab libm_cr (Select True # Report 0 report0 # replicate 127 Right)
     (initial 0 sim_glider0) = Inr sim_full"
proof -
  have m: "last_mode (sim_full\<lparr>distances := (\<lambda>_. 0)\<rparr>) = MODE_WHEEL"
    by (simp add: sim_full_def)
  have "run sim_collab libm_cr (replicate 127 Right) (sim_full\<lparr>distances := (\<lambda>_. 0)\<rparr>) = Inr sim_full"
    unfolding run_rights [OF m] by (simp add: sim_full_def fun_eq_iff)
  with reach_switched show ?thesis by simp
qed

text \<open>
  Claim C6 as stated (the raw distance is incremented by the signed unit) fails at the
  end of the 8-bit range: after the button is pressed, one report tick and 127 pulses to
  the right, the raw distance of the x axis is 127, and the next pulse to the right
  leaves -128, not 128.
\<close>

theorem C6_counterexample:
  "run sim_collab libm_cr (Select True # Report 0 report0 # replicate 127 Right)
     (initial 0 sim_glider0) = Inr sim_full \<and>
   last_mode sim_full = MODE_WHEEL \<and> sint (distances sim_full AXIS_X) = 127 \<and>
   trackball_right sim_collab libm_cr sim_full =
     Inr (sim_full\<lparr>distances := (distances sim_full)(AXIS_X := - 128)\<rparr>) \<and>
   sint (distances (projr (trackball_right sim_collab libm_cr sim_full)) AXIS_X) = - 128 \<and>
   \<not> sint (distances (projr (trackball_right sim_collab libm_cr sim_full)) AXIS_X)
       = sint (distances sim_full AXIS_X) + sint TB_INCR"
proof -
  have m: "last_mode sim_full = MODE_WHEEL" by (simp add: sim_full_def)
  have d: "distances sim_full AXIS_X = 127" by (simp add: sim_full_def)
  have i: "TB_INCR = 1" by (simp add: TB_INCR_def int8_of_int_def)
  have e: "(128 :: int8_t) = - 128" by simp
  have t: "trackball_right sim_collab libm_cr sim_full =
     Inr (sim_full\<lparr>distances := (distances sim_full)(AXIS_X := - 128)\<rparr>)"
    by (simp add: trackball_right_def trackball_move_wheel [OF m] i d e [symmetric])
  have n: "sint (distances (projr (trackball_right sim_collab libm_cr sim_full)) AXIS_X) = - 128"
    unfolding t by simp
  have p: "sint (distances sim_full AXIS_X) = 127" by (simp add: d)
  have q: "\<not> sint (distances (projr (trackball_right sim_collab libm_cr sim_full)) AXIS_X)
       = sint (distances sim_full AXIS_X) + sint TB_INCR"
    unfolding n p by (simp add: i)
  from reach_full m p t n q show ?thesis by (intro conjI)
qed

text \<open>
  Claim C6, as amended (frame of a pulse). A pulse ingested while the mode is WHEEL
  changes nothing but the raw distance of its axis: rate meters, gliders, wheel buffer
  and the other axis are as before. The signed unit of the trigger (-1 for left and up,
  1 for right and down) is added to the raw distance in 8-bit arithmetic: the raw
  distance is incremented by the unit while the sum stays within -128 .. 127, and wraps
  around by 256 otherwise. A pulse ingested while the mode is MOUSE also records the
  event in the rate meter of its axis, sets the direction of the glider of its axis and
  updates both gliders with the velocities of the acceleration curve. So a pulse reaches
  the rate meter and the gliders exactly when the mode is MOUSE.
\<close>

theorem C6_pulse_frame:
  "(last_mode s = MODE_WHEEL \<longrightarrow>
      trackball_move C M a d s = Inr (s\<lparr>distances := (distances s)(a := distances s a + d)\<rparr>)) \<and>
   (last_mode s = MODE_MOUSE \<longrightarrow>
      (\<exists>s' vx vy. trackball_move C M a d s = Inr s' \<and>
         axis_velocities M
           (rate_meter_rate C (((rate_meters s)(a := rate_meter_interrupt C (rate_meters s a))) AXIS_X))
           (rate_meter_rate C (((rate_meters s)(a := rate_meter_interrupt C (rate_meters s a))) AXIS_Y))
           = Inr (vx, vy) \<and>
         distances s' = (distances s)(a := distances s a + d) \<and>
         rate_meters s' = (rate_meters s)(a := rate_meter_interrupt C (rate_meters s a)) \<and>
         gliders s' AXIS_X =
           (if a = AXIS_X
            then glider_update C (glider_set_direction C (gliders s AXIS_X) d) vx
                   (sqrtf M (rate_meter_delta C (rate_meter_interrupt C (rate_meters s AXIS_X))))
            else glider_update_speed C (gliders s AXIS_X) vx) \<and>
         gliders s' AXIS_Y =
           (if a = AXIS_Y
            then glider_update C (glider_set_direction C (gliders s AXIS_Y) d) vy
                   (sqrtf M (rate_meter_delta C (rate_meter_interrupt C (rate_meters s AXIS_Y))))
            else glider_update_speed C (gliders s AXIS_Y) vy) \<and>
         wheel_buffer s' = wheel_buffer s \<and> last_mode s' = last_mode s \<and>
         last_report s' = last_report s \<and> select_button_pressed s' = select_button_pressed s)) \<and>
   sint (distances s a + d) = wrap8 (sint (distances s a) + sint d) \<and>
   (- 128 \<le> sint (distances s a) + sint d \<and> sint (distances s a) + sint d \<le> 127 \<longrightarrow>
      sint (distances s a + d) = sint (distances s a) + sint d) \<and>
   sint TB_DECR = - 1 \<and> sint TB_INCR = 1 \<and>
   trackball_left C M s = trackball_move C M AXIS_X TB_DECR s \<and>
   trackball_right C M s = trackball_move C M AXIS_X TB_INCR s \<and>
   trackball_up C M s = trackball_move C M AXIS_Y TB_DECR s \<and>
   trackball_down C M s = trackball_move C M AXIS_Y TB_INCR s"
proof -
  have w: "last_mode s = MODE_WHEEL \<longrightarrow>
      trackball_move C M a d s = Inr (s\<lparr>distances := (distances s)(a := distances s a + d)\<rparr>)"
    by (simp add: trackball_move_wheel)
  have m: "last_mode s = MODE_MOUSE \<longrightarrow>
      (\<exists>s' vx vy. trackball_move C M a d s = Inr s' \<and>
         axis_velocities M
           (rate_meter_rate C (((rate_meters s)(a := rate_meter_interrupt C (rate_meters s a))) AXIS_X))
           (rate_meter_rate C (((rate_meters s)(a := rate_meter_interrupt C (rate_meters s a))) AXIS_Y))
           = Inr (vx, vy) \<and>
         distances s' = (distances s)(a := distances s a + d) \<and>
         rate_meters s' = (rate_meters s)(a := rate_meter_interrupt C (rate_meters s a)) \<and>
         gliders s' AXIS_X =
           (if a = AXIS_X
            then glider_update C (glider_set_direction C (gliders s AXIS_X) d) vx
                   (sqrtf M (rate_meter_delta C (rate_meter_interrupt C (rate_meters s AXIS_X))))
            else glider_update_speed C (gliders s AXIS_X) vx) \<and>
         gliders s' AXIS_Y =
           (if a = AXIS_Y
            then glider_update C (glider_set_direction C (gliders s AXIS_Y) d) vy
                   (sqrtf M (rate_meter_delta C (rate_meter_interrupt C (rate_meters s AXIS_Y))))
            else glider_update_speed C (gliders s AXIS_Y) vy) \<and>
         wheel_buffer s' = wheel_buffer s \<and> last_mode s' = last_mode s \<and>
         last_report s' = last_report s \<and> select_button_pressed s' = select_button_pressed s)"
    using trackball_move_mouse [of s C M a d] by blast
  have k: "sint (distances s a + d) = wrap8 (sint (distances s a) + sint d)"
    by (rule sint_add8)
  have r: "- 128 \<le> sint (distances s a) + sint d \<and> sint (distances s a) + sint d \<le> 127 \<longrightarrow>
      sint (distances s a + d) = sint (distances s a) + sint d"
    unfolding k by (simp add: wrap8_def)
  have u: "sint TB_DECR = - 1" "sint TB_INCR = 1"
    by (simp_all add: TB_DECR_def TB_INCR_def int8_of_int_def)
  have h: "trackball_left C M s = trackball_move C M AXIS_X TB_DECR s"
    "trackball_right C M s = trackball_move C M AXIS_X TB_INCR s"
    "trackball_up C M s = trackball_move C M AXIS_Y TB_DECR s"
    "trackball_down C M s = trackball_move C M AXIS_Y TB_INCR s"
    by (simp_all add: trackball_left_def trackball_right_def trackball_up_def trackball_down_def)
  from w m k r u h show ?thesis by (intro conjI)
qed

text \<open>A pulse to the right while scrolling, a pulse up while gliding.\<close>

theorem C6_pulse_frame_witness:
  "last_mode sim_scrolling = MODE_WHEEL \<and>
   trackball_right sim_collab libm_cr sim_scrolling =
     Inr (sim_scrolling\<lparr>distances := (\<lambda>_. 0)(AXIS_X := 6, AXIS_Y := 2)\<rparr>) \<and>
   sint (distances sim_scrolling AXIS_X) + sint TB_INCR = 6 \<and>
   sint (distances sim_scrolling AXIS_X + TB_INCR) = 6 \<and>
   last_mode sim_gliding = MODE_MOUSE \<and>
   (\<exists>s'. trackball_up sim_collab libm_cr sim_gliding = Inr s' \<and>
         sint (distances s' AXIS_Y) = - 1 \<and> rate_meters s' AXIS_Y = 2 \<and> rate_meters s' AXIS_X = 1)"
proof -
  have w: "last_mode sim_scrolling = MODE_WHEEL" by (simp add: sim_scrolling_def)
  have m: "last_mode sim_gliding = MODE_MOUSE" by (simp add: sim_gliding_def)
  have i: "TB_INCR = 1" "TB_DECR = - 1" by (simp_all add: TB_INCR_def TB_DECR_def int8_of_int_def)
  have x: "distances sim_scrolling AXIS_X = 5" by (simp add: sim_scrolling_def)
  have d: "sim_scrolling\<lparr>distances := (distances sim_scrolling)(AXIS_X := distances sim_scrolling AXIS_X + TB_INCR)\<rparr>
     = sim_scrolling\<lparr>distances := (\<lambda>_. 0)(AXIS_X := 6, AXIS_Y := 2)\<rparr>"
    by (simp add: sim_scrolling_def i fun_eq_iff)
  note A = C6_pulse_frame [of sim_scrolling sim_collab libm_cr AXIS_X TB_INCR]
  note B = C6_pulse_frame [of sim_gliding sim_collab libm_cr AXIS_Y TB_DECR]
  from A w d
  have 1: "trackball_right sim_collab libm_cr sim_scrolling =
     Inr (sim_scrolling\<lparr>distances := (\<lambda>_. 0)(AXIS_X := 6, AXIS_Y := 2)\<rparr>)"
    by simp
  from A have 2: "sint (distances sim_scrolling AXIS_X) + sint TB_INCR = 6 \<and>
     sint (distances sim_scrolling AXIS_X + TB_INCR) = 6"
    by (simp add: x i)
  from B m
  obtain s' where "trackball_move sim_collab libm_cr AXIS_Y TB_DECR sim_gliding = Inr s'"
    "distances s' = (distances sim_gliding)(AXIS_Y := distances sim_gliding AXIS_Y + TB_DECR)"
    "rate_meters s' = (rate_meters sim_gliding)
        (AXIS_Y := rate_meter_interrupt sim_collab (rate_meters sim_gliding AXIS_Y))"
    by blast
  with B have 3: "\<exists>s'. trackball_up sim_collab libm_cr sim_gliding = Inr s' \<and>
         sint (distances s' AXIS_Y) = - 1 \<and> rate_meters s' AXIS_Y = 2 \<and> rate_meters s' AXIS_X = 1"
    by (simp add: sim_gliding_def sim_collab_def i)
  from w m 1 2 3 show ?thesis by simp
qed

section \<open>The invariant of the wheel buffer\<close>

lemma step_bounded:
  assumes "wheel_bounded s"
  shows "\<exists>s'. step C M e s = Inr s' \<and> wheel_bounded s'"
proof (cases e)
  case Left
  with trackball_move_keeps_wheel [of C M AXIS_X TB_DECR s] assms show ?thesis
    by (auto simp: trackball_left_def wheel_bounded_def)
next
  case Right
  with trackball_move_keeps_wheel [of C M AXIS_X TB_INCR s] assms show ?thesis
    by (auto simp: trackball_right_def wheel_bounded_def)
next
  case Up
  with trackball_move_keeps_wheel [of C M AXIS_Y TB_DECR s] assms show ?thesis
    by (auto simp: trackball_up_def wheel_bounded_def)
next
  case Down
  with trackball_move_keeps_wheel [of C M AXIS_Y TB_INCR s] assms show ?thesis
    by (auto simp: trackball_down_def wheel_bounded_def)
next
  case (Select b)
  with assms show ?thesis by (simp add: wheel_bounded_def)
next
  case (Report now mr)
  with assms tick_bound [of s AXIS_X C now] tick_bound [of s AXIS_Y C now] show ?thesis
    by (simp add: wheel_bounded_def snd_get_report sint_WHEEL_DENOM)
qed

lemma run_bounded:
  "wheel_bounded s \<Longrightarrow> \<exists>s'. run C M es s = Inr s' \<and> wheel_bounded s'"
proof (induction es arbitrary: s)
  case Nil
  then show ?case by simp
next
  case (Cons e es)
  from step_bounded [OF Cons.prems, of C M e]
  obtain s1 where s1: "step C M e s = Inr s1" "wheel_bounded s1" by blast
  from Cons.IH [OF s1(2)] s1(1) show ?case by simp
qed

lemma initial_bounded: "wheel_bounded (initial r0 g0)"
  by (simp add: wheel_bounded_def initial_def sint_WHEEL_DENOM)

text \<open>
  Claim C2 (wheel remainder bound). After any sequence of pulses, writes of the button
  flag and report ticks, started in the initial state, every report tick completes and
  leaves \<open>\<bar>wheel_buffer\<bar> < WHEEL_DENOM\<close> on both axes, where \<open>WHEEL_DENOM\<close> is 2.
\<close>

theorem C2_wheel_remainder_bound:
  "\<exists>s. run C M (es @ [Report now mouse_report]) (initial r0 g0) = Inr s \<and>
       \<bar>sint (wheel_buffer s AXIS_X)\<bar> < sint WHEEL_DENOM \<and>
       \<bar>sint (wheel_buffer s AXIS_Y)\<bar> < sint WHEEL_DENOM"
  using run_bounded [OF initial_bounded, of C M "es @ [Report now mouse_report]" r0 g0]
  by (simp add: wheel_bounded_def)

end
